theory Spec2Isabelle
  imports Main "HOL-Library.Word"
begin

section \<open>libhosty: the hosts file as a sequence of typed lines\<close>

text \<open>
  The theory embeds \<^verbatim>\<open>libhosty.go\<close>: the line record, the document, the
  lookups, \<^verbatim>\<open>RemoveRow\<close>, \<^verbatim>\<open>AddHostRaw\<close>, \<^verbatim>\<open>AddHost\<close>, the comment and uncomment
  operations and the rendering of the whole document. A method with receiver
  \<^verbatim>\<open>h *HostsFile\<close> becomes a function that takes the document and returns the
  updated one. A run-time panic of Go (an index or a slice expression out of
  range) is a value of type \<open>panic\<close>; a Go \<^verbatim>\<open>error\<close> is a value of type \<open>error\<close>.
  The mutex is left out: every operation is modelled as it runs alone.
\<close>

subsection \<open>Addresses: the standard library's \<^verbatim>\<open>net.IP\<close>\<close>

text \<open>
  \<^verbatim>\<open>net.IP\<close> is a byte slice. \<open>None\<close> is the nil slice, which is what
  \<^verbatim>\<open>net.ParseIP\<close> returns for a text that is no address.
\<close>

type_synonym byte = "8 word"
type_synonym IP = "byte list option"

definition ip_bytes :: "IP \<Rightarrow> byte list" where
  "ip_bytes ip = (case ip of None \<Rightarrow> [] | Some b \<Rightarrow> b)"

definition v4InV6Prefix :: "byte list" where
  "v4InV6Prefix = [0, 0, 0, 0, 0, 0, 0, 0, 0, 0, 0xff, 0xff]"

text \<open>
  \<^verbatim>\<open>net.IP.Equal\<close>: slices of the same length are compared byte by byte (so two
  nil slices are equal); a 4-byte address equals its 16-byte IPv4-in-IPv6 form.
\<close>

definition IP_Equal :: "IP \<Rightarrow> IP \<Rightarrow> bool" where
  "IP_Equal ip x =
     (let a = ip_bytes ip; b = ip_bytes x in
      if length a = length b then a = b
      else if length a = 4 \<and> length b = 16 then take 12 b = v4InV6Prefix \<and> a = drop 12 b
      else if length a = 16 \<and> length b = 4 then take 12 a = v4InV6Prefix \<and> drop 12 a = b
      else False)"

subsection \<open>Lines and documents\<close>

definition UNKNOWN :: int where "UNKNOWN = 0"
definition EMPTY :: int where "EMPTY = 10"
definition COMMENT :: int where "COMMENT = 20"
definition ADDRESS :: int where "ADDRESS = 30"

record HostsFileLine =
  LineNumber :: int
  LineType :: int
  Address :: IP
  Parts :: "string list"
  Hostnames :: "string list"
  Raw :: string
  Trimed :: string
  Comment :: string
  IsCommented :: bool

text \<open>The zero value of the struct, which a Go composite literal starts from.\<close>

definition zero_line :: HostsFileLine where
  "zero_line = \<lparr>LineNumber = 0, LineType = 0, Address = None, Parts = [], Hostnames = [],
     Raw = [], Trimed = [], Comment = [], IsCommented = False\<rparr>"

record HostsConfig =
  FilePath :: string

record HostsFile =
  Config :: "HostsConfig option"
  HostsFileLines :: "HostsFileLine list"

text \<open>
  Modelled from the spec: the package's error variables (\<^verbatim>\<open>ErrNotAnAddressLine\<close>,
  \<^verbatim>\<open>ErrAlredyCommentedLine\<close>, \<^verbatim>\<open>ErrAlredyUncommentedLine\<close>, \<^verbatim>\<open>ErrAddressNotFound\<close>,
  \<^verbatim>\<open>ErrHostnameNotFound\<close>, \<^verbatim>\<open>ErrUnknown\<close>) are declared outside \<^verbatim>\<open>libhosty.go\<close>. The
  spec lists them as distinct named kinds of failure, so each is a constructor
  named after the variable that the code returns. \<open>ErrorString\<close> is an error
  made on the spot by \<^verbatim>\<open>errors.New\<close> or \<^verbatim>\<open>fmt.Errorf\<close>, with its message.
\<close>

datatype error =
    ErrNotAnAddressLine
  | ErrAlredyCommentedLine
  | ErrAlredyUncommentedLine
  | ErrAddressNotFound
  | ErrHostnameNotFound
  | ErrUnknown
  | ErrorString string

datatype panic = IndexOutOfRange | SliceBoundsOutOfRange

text \<open>\<^verbatim>\<open>h.HostsFileLines[idx] = f(h.HostsFileLines[idx])\<close>, for an index in range.\<close>

definition update_line :: "nat \<Rightarrow> (HostsFileLine \<Rightarrow> HostsFileLine) \<Rightarrow> HostsFile \<Rightarrow> HostsFile" where
  "update_line idx f h =
     h\<lparr>HostsFileLines := (HostsFileLines h)[idx := f (HostsFileLines h ! idx)]\<rparr>"

subsection \<open>Lookups\<close>

definition GetHostsFileLineByRow :: "int \<Rightarrow> HostsFile \<Rightarrow> panic + HostsFileLine" where
  "GetHostsFileLineByRow row h =
     (if 0 \<le> row \<and> row < int (length (HostsFileLines h))
      then Inr (HostsFileLines h ! nat row) else Inl IndexOutOfRange)"

text \<open>
  The lookups scan the lines from the first one. Go returns \<^verbatim>\<open>-1, nil\<close> when
  nothing matches; here that is \<open>None\<close>.
\<close>

fun GetHostsFileLineByIP_loop :: "IP \<Rightarrow> nat \<Rightarrow> HostsFileLine list \<Rightarrow> (nat \<times> HostsFileLine) option" where
  "GetHostsFileLineByIP_loop ip idx [] = None"
| "GetHostsFileLineByIP_loop ip idx (l # ls) =
     (if IP_Equal ip (Address l) then Some (idx, l)
      else GetHostsFileLineByIP_loop ip (Suc idx) ls)"

definition GetHostsFileLineByIP :: "IP \<Rightarrow> HostsFile \<Rightarrow> (nat \<times> HostsFileLine) option" where
  "GetHostsFileLineByIP ip h = GetHostsFileLineByIP_loop ip 0 (HostsFileLines h)"

definition GetHostsFileLineByAddress ::
    "(string \<Rightarrow> IP) \<Rightarrow> string \<Rightarrow> HostsFile \<Rightarrow> (nat \<times> HostsFileLine) option" where
  "GetHostsFileLineByAddress parseIP address h = GetHostsFileLineByIP (parseIP address) h"

fun GetHostsFileLineByHostname_loop ::
    "string \<Rightarrow> nat \<Rightarrow> HostsFileLine list \<Rightarrow> (nat \<times> HostsFileLine) option" where
  "GetHostsFileLineByHostname_loop hostname idx [] = None"
| "GetHostsFileLineByHostname_loop hostname idx (l # ls) =
     (if hostname \<in> set (Hostnames l) then Some (idx, l)
      else GetHostsFileLineByHostname_loop hostname (Suc idx) ls)"

definition GetHostsFileLineByHostname :: "string \<Rightarrow> HostsFile \<Rightarrow> (nat \<times> HostsFileLine) option" where
  "GetHostsFileLineByHostname hostname h =
     GetHostsFileLineByHostname_loop hostname 0 (HostsFileLines h)"

text \<open>
  \<^verbatim>\<open>LookupByHostname\<close> returns the index and the address of the first line that
  holds the hostname, or the error \<^verbatim>\<open>errors.New("Hostname not found")\<close> (with
  index \<^verbatim>\<open>-1\<close> and a nil address, which the sum leaves out).
\<close>

fun LookupByHostname_loop :: "string \<Rightarrow> nat \<Rightarrow> HostsFileLine list \<Rightarrow> error + (nat \<times> IP)" where
  "LookupByHostname_loop hostname idx [] = Inl (ErrorString ''Hostname not found'')"
| "LookupByHostname_loop hostname idx (hfl # ls) =
     (if hostname \<in> set (Hostnames hfl) then Inr (idx, Address hfl)
      else LookupByHostname_loop hostname (Suc idx) ls)"

definition LookupByHostname :: "string \<Rightarrow> HostsFile \<Rightarrow> error + (nat \<times> IP)" where
  "LookupByHostname hostname h = LookupByHostname_loop hostname 0 (HostsFileLines h)"

subsection \<open>Rendering\<close>

text \<open>
  \<^verbatim>\<open>strings.Join\<close> of the standard library. \<^verbatim>\<open>lineFormatter\<close> is defined outside
  \<^verbatim>\<open>libhosty.go\<close>: every operation that calls it takes it as the parameter
  \<open>lineFormatter\<close>.
\<close>

fun strings_Join :: "string list \<Rightarrow> string \<Rightarrow> string" where
  "strings_Join [] sep = []"
| "strings_Join [x] sep = x"
| "strings_Join (x # y # ys) sep = x @ sep @ strings_Join (y # ys) sep"

definition newline :: char where
  "newline = CHR 0x0A"

definition RenderHostsFile :: "(HostsFileLine \<Rightarrow> string) \<Rightarrow> HostsFile \<Rightarrow> string" where
  "RenderHostsFile lineFormatter h =
     strings_Join (map lineFormatter (HostsFileLines h)) [newline]"

fun RenderHostsFileLine_loop :: "(HostsFileLine \<Rightarrow> string) \<Rightarrow> int \<Rightarrow> int \<Rightarrow> HostsFileLine list \<Rightarrow> string" where
  "RenderHostsFileLine_loop lineFormatter row idx [] = []"
| "RenderHostsFileLine_loop lineFormatter row idx (hfl # ls) =
     (if idx = row then lineFormatter hfl
      else RenderHostsFileLine_loop lineFormatter row (idx + 1) ls)"

definition RenderHostsFileLine :: "(HostsFileLine \<Rightarrow> string) \<Rightarrow> int \<Rightarrow> HostsFile \<Rightarrow> string" where
  "RenderHostsFileLine lineFormatter row h =
     RenderHostsFileLine_loop lineFormatter row 0 (HostsFileLines h)"

subsection \<open>Removing a row\<close>

text \<open>
  \<^verbatim>\<open>row\<close> is a Go \<^verbatim>\<open>int\<close>. The guard is \<^verbatim>\<open>row < len(h.HostsFileLines)\<close> only, so a
  negative row reaches the slice expression \<^verbatim>\<open>h.HostsFileLines[:row]\<close>, which
  panics.
\<close>

definition RemoveRow :: "int \<Rightarrow> HostsFile \<Rightarrow> panic + HostsFile" where
  "RemoveRow row h =
     (let ls = HostsFileLines h in
      if row < int (length ls) then
        (if 0 \<le> row
         then Inr (h\<lparr>HostsFileLines := take (nat row) ls @ drop (nat row + 1) ls\<rparr>)
         else Inl SliceBoundsOutOfRange)
      else Inr h)"

subsection \<open>Adding hosts, comments and empty lines\<close>

text \<open>
  \<^verbatim>\<open>net.ParseIP\<close> and \<^verbatim>\<open>strings.ToLower\<close> belong to the standard library; the
  operations take them as the parameters \<open>parseIP\<close> and \<open>toLower\<close>, so every
  theorem below holds for whatever they compute. The returned pointer
  \<^verbatim>\<open>&h.HostsFileLines[idx]\<close> is modelled by the line it points to at return.
  On failure Go returns \<^verbatim>\<open>-1, nil, err\<close>: here \<open>Inl err\<close>.
\<close>

definition AddHostRaw ::
    "(string \<Rightarrow> IP) \<Rightarrow> (string \<Rightarrow> string) \<Rightarrow> string \<Rightarrow> string \<Rightarrow> string \<Rightarrow> HostsFile
      \<Rightarrow> (error + (nat \<times> HostsFileLine)) \<times> HostsFile" where
  "AddHostRaw parseIP toLower ipRaw fqdnRaw comment h =
     (let hostname = toLower fqdnRaw; ip = parseIP ipRaw in
      if ip \<noteq> None then
        (let hfl = zero_line\<lparr>LineType := ADDRESS, Address := ip, Hostnames := [hostname],
                     Comment := comment, IsCommented := False\<rparr>;
             h1 = h\<lparr>HostsFileLines := HostsFileLines h @ [hfl]\<rparr>;
             idx = length (HostsFileLines h1) - 1
         in (Inr (idx, HostsFileLines h1 ! idx), h1))
      else (Inl (ErrorString (''Cannot parse IP address '' @ ipRaw)), h))"

text \<open>
  The loop of \<^verbatim>\<open>AddHost\<close> that detaches the hostname from its previous line
  (lines 319 to 332). Go evaluates the range expression once: the loop runs
  over the \<open>n\<close> cells of the backing array that the hostname slice had at the
  start, and reads cell \<open>hostIdx\<close> as it is at that moment. The body works on
  \<^verbatim>\<open>h.HostsFileLines[idx].Hostnames\<close> as it is then:
  \<^item> \<open>arr\<close> is the content of those \<open>n\<close> cells;
  \<^item> \<open>own\<close> says that line \<open>idx\<close> is still the line the loop started on, so
    that its hostname slice lives in \<open>arr\<close>;
    \<^verbatim>\<open>append(s[:hostIdx], s[hostIdx+1:]...)\<close> then shifts the cells in place.
    After \<^verbatim>\<open>RemoveRow(idx)\<close> the index \<open>idx\<close> names the following line (or none),
    whose hostnames live elsewhere;
  \<^item> \<^verbatim>\<open>h.HostsFileLines[idx]\<close> panics when \<open>idx\<close> is no longer in range, and
    \<^verbatim>\<open>s[hostIdx+1:]\<close> panics when \<open>hostIdx + 1\<close> exceeds the length of \<open>s\<close>.
  The second argument counts the iterations left. Hostname slices of different
  lines are taken to share no cells.
\<close>

fun AddHost_detach_loop ::
    "string \<Rightarrow> nat \<Rightarrow> nat \<Rightarrow> nat \<Rightarrow> string list \<Rightarrow> bool \<Rightarrow> HostsFile \<Rightarrow> panic + HostsFile" where
  "AddHost_detach_loop hostname idx 0 hostIdx arr own h = Inr h"
| "AddHost_detach_loop hostname idx (Suc k) hostIdx arr own h =
     (if arr ! hostIdx = hostname then
        (if idx < length (HostsFileLines h) then
           (let s = Hostnames (HostsFileLines h ! idx) in
            if length s > 1 \<and> length s < hostIdx + 1 then Inl SliceBoundsOutOfRange
            else
              (let s1 = (if length s > 1 then take hostIdx s @ drop (hostIdx + 1) s else s);
                   h1 = (if length s > 1 then update_line idx (\<lambda>l. l\<lparr>Hostnames := s1\<rparr>) h else h);
                   arr1 = (if length s > 1 \<and> own then s1 @ drop (length s1) arr else arr)
               in if length s1 \<le> 1 then
                    (case RemoveRow (int idx) h1 of
                       Inl p \<Rightarrow> Inl p
                     | Inr h2 \<Rightarrow> AddHost_detach_loop hostname idx k (Suc hostIdx) arr1 False h2)
                  else AddHost_detach_loop hostname idx k (Suc hostIdx) arr1 own h1))
         else Inl IndexOutOfRange)
      else AddHost_detach_loop hostname idx k (Suc hostIdx) arr own h)"

definition AddHost_detach :: "string \<Rightarrow> nat \<Rightarrow> HostsFile \<Rightarrow> panic + HostsFile" where
  "AddHost_detach hostname idx h =
     (let s = Hostnames (HostsFileLines h ! idx)
      in AddHost_detach_loop hostname idx (length s) 0 s True h)"

text \<open>
  The second loop of \<^verbatim>\<open>AddHost\<close> (lines 336 to 351) returns at the first line
  whose address equals \<open>ip\<close>; \<open>AddHost_find\<close> is the index of that line.
\<close>

fun AddHost_find :: "IP \<Rightarrow> nat \<Rightarrow> HostsFileLine list \<Rightarrow> nat option" where
  "AddHost_find ip idx [] = None"
| "AddHost_find ip idx (hfl # ls) =
     (if IP_Equal (Address hfl) ip then Some idx else AddHost_find ip (Suc idx) ls)"

definition AddHost_attach ::
    "(HostsFileLine \<Rightarrow> string) \<Rightarrow> IP \<Rightarrow> string \<Rightarrow> string \<Rightarrow> HostsFile
      \<Rightarrow> (error + (nat \<times> HostsFileLine)) \<times> HostsFile" where
  "AddHost_attach lineFormatter ip hostname comment h =
     (case AddHost_find ip 0 (HostsFileLines h) of
        Some idx \<Rightarrow>
          (let h1 = update_line idx (\<lambda>l. l\<lparr>Hostnames := Hostnames l @ [hostname]\<rparr>) h;
               h2 = (if comment \<noteq> [] then update_line idx (\<lambda>l. l\<lparr>Comment := comment\<rparr>) h1 else h1)
           in (Inr (idx, HostsFileLines h2 ! idx), h2))
      | None \<Rightarrow>
          (let hfl = zero_line\<lparr>LineType := ADDRESS, Address := ip, Hostnames := [hostname],
                       Comment := comment, IsCommented := False\<rparr>;
               hfl1 = hfl\<lparr>Raw := lineFormatter hfl\<rparr>;
               h1 = h\<lparr>HostsFileLines := HostsFileLines h @ [hfl1]\<rparr>;
               idx = length (HostsFileLines h1) - 1
           in (Inr (idx, HostsFileLines h1 ! idx), h1)))"

definition AddHost ::
    "(string \<Rightarrow> IP) \<Rightarrow> (string \<Rightarrow> string) \<Rightarrow> (HostsFileLine \<Rightarrow> string)
      \<Rightarrow> string \<Rightarrow> string \<Rightarrow> string \<Rightarrow> HostsFile
      \<Rightarrow> panic + ((error + (nat \<times> HostsFileLine)) \<times> HostsFile)" where
  "AddHost parseIP toLower lineFormatter ipRaw fqdnRaw comment h =
     (let hostname = toLower fqdnRaw; ip = parseIP ipRaw in
      if ip \<noteq> None then
        (case LookupByHostname hostname h of
           Inr (idx, addr) \<Rightarrow>
             (if IP_Equal addr ip then
                (let h1 = (if comment \<noteq> [] then update_line idx (\<lambda>l. l\<lparr>Comment := comment\<rparr>) h else h)
                 in Inr (Inr (idx, HostsFileLines h1 ! idx), h1))
              else
                (case AddHost_detach hostname idx h of
                   Inl p \<Rightarrow> Inl p
                 | Inr h1 \<Rightarrow> Inr (AddHost_attach lineFormatter ip hostname comment h1)))
         | Inl err \<Rightarrow> Inr (AddHost_attach lineFormatter ip hostname comment h))
      else Inr (Inl (ErrorString (''Cannot parse IP address '' @ ipRaw)), h))"

definition AddComment ::
    "(HostsFileLine \<Rightarrow> string) \<Rightarrow> string \<Rightarrow> HostsFile \<Rightarrow> (nat \<times> HostsFileLine) \<times> HostsFile" where
  "AddComment lineFormatter comment h =
     (let hfl = zero_line\<lparr>LineType := COMMENT, Raw := ''# '' @ comment\<rparr>;
          hfl1 = hfl\<lparr>Raw := lineFormatter hfl\<rparr>;
          h1 = h\<lparr>HostsFileLines := HostsFileLines h @ [hfl1]\<rparr>;
          idx = length (HostsFileLines h1) - 1
      in ((idx, HostsFileLines h1 ! idx), h1))"

definition AddEmpty :: "HostsFile \<Rightarrow> (nat \<times> HostsFileLine) \<times> HostsFile" where
  "AddEmpty h =
     (let hfl = zero_line\<lparr>LineType := EMPTY\<rparr>;
          hfl1 = hfl\<lparr>Raw := []\<rparr>;
          h1 = h\<lparr>HostsFileLines := HostsFileLines h @ [hfl1]\<rparr>;
          idx = length (HostsFileLines h1) - 1
      in ((idx, HostsFileLines h1 ! idx), h1))"

subsection \<open>Commenting and uncommenting\<close>

text \<open>
  The result is the returned error (\<open>None\<close> is Go's nil) and the document. The
  guard of the row operations is \<^verbatim>\<open>row <= len(h.HostsFileLines)\<close>, so a row equal
  to the length, or a negative one, reaches \<^verbatim>\<open>h.HostsFileLines[row]\<close> and panics.
\<close>

definition CommentByRow :: "int \<Rightarrow> HostsFile \<Rightarrow> panic + (error option \<times> HostsFile)" where
  "CommentByRow row h =
     (let ls = HostsFileLines h in
      if row \<le> int (length ls) then
        (if 0 \<le> row \<and> row < int (length ls) then
           (if LineType (ls ! nat row) = ADDRESS then
              (if IsCommented (ls ! nat row) \<noteq> True
               then Inr (None, update_line (nat row) (\<lambda>l. l\<lparr>IsCommented := True\<rparr>) h)
               else Inr (Some ErrAlredyCommentedLine, h))
            else Inr (Some ErrNotAnAddressLine, h))
         else Inl IndexOutOfRange)
      else Inr (Some ErrUnknown, h))"

definition UncommentByRow :: "int \<Rightarrow> HostsFile \<Rightarrow> panic + (error option \<times> HostsFile)" where
  "UncommentByRow row h =
     (let ls = HostsFileLines h in
      if row \<le> int (length ls) then
        (if 0 \<le> row \<and> row < int (length ls) then
           (if LineType (ls ! nat row) = ADDRESS then
              (if IsCommented (ls ! nat row) \<noteq> False
               then Inr (None, update_line (nat row) (\<lambda>l. l\<lparr>IsCommented := False\<rparr>) h)
               else Inr (Some ErrAlredyUncommentedLine, h))
            else Inr (Some ErrNotAnAddressLine, h))
         else Inl IndexOutOfRange)
      else Inr (Some ErrUnknown, h))"

text \<open>
  In the loops of the operations by IP and by hostname the \<^verbatim>\<open>return\<close> of the
  error stands inside the loop body, after the test of the line: the body
  returns in its first iteration whatever the line is, and the rest of the
  slice is never read. The second equation of each loop function is that body;
  the first is the statement after the loop.
\<close>

fun CommentByIP_loop :: "IP \<Rightarrow> nat \<Rightarrow> HostsFileLine list \<Rightarrow> HostsFile \<Rightarrow> error option \<times> HostsFile" where
  "CommentByIP_loop ip idx [] h = (Some ErrUnknown, h)"
| "CommentByIP_loop ip idx (hfl # ls) h =
     (if IP_Equal ip (Address hfl) then
        (if IsCommented (HostsFileLines h ! idx) \<noteq> True
         then (None, update_line idx (\<lambda>l. l\<lparr>IsCommented := True\<rparr>) h)
         else (Some ErrAlredyCommentedLine, h))
      else (Some ErrAddressNotFound, h))"

definition CommentByIP :: "IP \<Rightarrow> HostsFile \<Rightarrow> error option \<times> HostsFile" where
  "CommentByIP ip h = CommentByIP_loop ip 0 (HostsFileLines h) h"

definition CommentByAddress :: "(string \<Rightarrow> IP) \<Rightarrow> string \<Rightarrow> HostsFile \<Rightarrow> error option \<times> HostsFile" where
  "CommentByAddress parseIP address h = CommentByIP (parseIP address) h"

fun CommentByHostname_inner :: "string \<Rightarrow> nat \<Rightarrow> string list \<Rightarrow> HostsFile \<Rightarrow> (error option \<times> HostsFile) option" where
  "CommentByHostname_inner hostname idx [] h = None"
| "CommentByHostname_inner hostname idx (hn # hns) h =
     (if hn = hostname then
        (if IsCommented (HostsFileLines h ! idx) \<noteq> True
         then Some (None, update_line idx (\<lambda>l. l\<lparr>IsCommented := True\<rparr>) h)
         else Some (Some ErrAlredyCommentedLine, h))
      else CommentByHostname_inner hostname idx hns h)"

fun CommentByHostname_loop :: "string \<Rightarrow> nat \<Rightarrow> HostsFileLine list \<Rightarrow> HostsFile \<Rightarrow> error option \<times> HostsFile" where
  "CommentByHostname_loop hostname idx [] h = (Some ErrUnknown, h)"
| "CommentByHostname_loop hostname idx (hfl # ls) h =
     (case CommentByHostname_inner hostname idx (Hostnames hfl) h of
        Some r \<Rightarrow> r
      | None \<Rightarrow> (Some ErrHostnameNotFound, h))"

definition CommentByHostname :: "string \<Rightarrow> HostsFile \<Rightarrow> error option \<times> HostsFile" where
  "CommentByHostname hostname h = CommentByHostname_loop hostname 0 (HostsFileLines h) h"

fun UncommentByIP_loop :: "IP \<Rightarrow> nat \<Rightarrow> HostsFileLine list \<Rightarrow> HostsFile \<Rightarrow> error option \<times> HostsFile" where
  "UncommentByIP_loop ip idx [] h = (Some ErrUnknown, h)"
| "UncommentByIP_loop ip idx (hfl # ls) h =
     (if IP_Equal ip (Address hfl) then
        (if IsCommented (HostsFileLines h ! idx) \<noteq> False
         then (None, update_line idx (\<lambda>l. l\<lparr>IsCommented := False\<rparr>) h)
         else (Some ErrAlredyUncommentedLine, h))
      else (Some ErrNotAnAddressLine, h))"

definition UncommentByIP :: "IP \<Rightarrow> HostsFile \<Rightarrow> error option \<times> HostsFile" where
  "UncommentByIP ip h = UncommentByIP_loop ip 0 (HostsFileLines h) h"

definition UncommentByAddress :: "(string \<Rightarrow> IP) \<Rightarrow> string \<Rightarrow> HostsFile \<Rightarrow> error option \<times> HostsFile" where
  "UncommentByAddress parseIP address h = UncommentByIP (parseIP address) h"

fun UncommentByHostname_inner :: "string \<Rightarrow> nat \<Rightarrow> string list \<Rightarrow> HostsFile \<Rightarrow> (error option \<times> HostsFile) option" where
  "UncommentByHostname_inner hostname idx [] h = None"
| "UncommentByHostname_inner hostname idx (hn # hns) h =
     (if hn = hostname then
        (if IsCommented (HostsFileLines h ! idx) \<noteq> False
         then Some (None, update_line idx (\<lambda>l. l\<lparr>IsCommented := False\<rparr>) h)
         else Some (Some ErrAlredyUncommentedLine, h))
      else UncommentByHostname_inner hostname idx hns h)"

fun UncommentByHostname_loop :: "string \<Rightarrow> nat \<Rightarrow> HostsFileLine list \<Rightarrow> HostsFile \<Rightarrow> error option \<times> HostsFile" where
  "UncommentByHostname_loop hostname idx [] h = (Some ErrUnknown, h)"
| "UncommentByHostname_loop hostname idx (hfl # ls) h =
     (case UncommentByHostname_inner hostname idx (Hostnames hfl) h of
        Some r \<Rightarrow> r
      | None \<Rightarrow> (Some ErrHostnameNotFound, h))"

definition UncommentByHostname :: "string \<Rightarrow> HostsFile \<Rightarrow> error option \<times> HostsFile" where
  "UncommentByHostname hostname h = UncommentByHostname_loop hostname 0 (HostsFileLines h) h"

subsection \<open>Concrete instances of the library functions\<close>

text \<open>
  To evaluate the operations on concrete documents, the parameters are
  instantiated as follows. \<open>parseIPv4\<close> is the dotted-decimal part of
  \<^verbatim>\<open>net.ParseIP\<close>: four decimal fields from 0 to 255 without leading zeros, the
  result in the 16-byte form; any other text gives nil (textual IPv6 is not
  covered, and is not used below). \<open>toLowerASCII\<close> is \<^verbatim>\<open>strings.ToLower\<close> on ASCII
  text. \<open>rawFormatter\<close> takes the place of \<^verbatim>\<open>lineFormatter\<close> and renders a line by
  its stored raw text; the operations use \<^verbatim>\<open>lineFormatter\<close> only to fill the field
  \<^verbatim>\<open>Raw\<close> of a line they create and to render, and every general theorem below
  holds whatever it returns.
\<close>

definition is_digit :: "char \<Rightarrow> bool" where
  "is_digit c = (48 \<le> (of_char c :: nat) \<and> (of_char c :: nat) \<le> 57)"

fun parseIPv4_loop :: "string \<Rightarrow> nat list \<Rightarrow> nat \<Rightarrow> nat \<Rightarrow> nat list option" where
  "parseIPv4_loop [] octets val digLen =
     (if length octets = 3 \<and> 0 < digLen then Some (octets @ [val]) else None)"
| "parseIPv4_loop (c # cs) octets val digLen =
     (if is_digit c then
        (if digLen = 1 \<and> val = 0 then None
         else (let v = val * 10 + (of_char c - 48)
               in if v > 255 then None else parseIPv4_loop cs octets v (Suc digLen)))
      else if c = CHR ''.'' then
        (if digLen = 0 \<or> cs = [] \<or> length octets = 3 then None
         else parseIPv4_loop cs (octets @ [val]) 0 0)
      else None)"

definition parseIPv4 :: "string \<Rightarrow> IP" where
  "parseIPv4 s =
     (case parseIPv4_loop s [] 0 0 of
        None \<Rightarrow> None
      | Some octets \<Rightarrow> Some (v4InV6Prefix @ map of_nat octets))"

definition toLowerASCII :: "string \<Rightarrow> string" where
  "toLowerASCII s =
     map (\<lambda>c. if 65 \<le> (of_char c :: nat) \<and> (of_char c :: nat) \<le> 90
              then char_of ((of_char c :: nat) + 32) else c) s"

definition rawFormatter :: "HostsFileLine \<Rightarrow> string" where
  "rawFormatter l = Raw l"

subsection \<open>Notions used to state the properties\<close>

text \<open>
  A run of \<^verbatim>\<open>AddHost\<close> calls, each given by its three arguments; a panic ends
  the run. \<open>records_with\<close> lists the lines whose hostname list holds a hostname,
  \<open>orphans\<close> the Address lines without hostnames, \<open>all_hostnames\<close> is every
  hostname list of the document in a row, and \<open>occurrences\<close> counts how often a
  hostname stands in it.
\<close>

fun AddHost_seq ::
    "(string \<Rightarrow> IP) \<Rightarrow> (string \<Rightarrow> string) \<Rightarrow> (HostsFileLine \<Rightarrow> string)
      \<Rightarrow> (string \<times> string \<times> string) list \<Rightarrow> HostsFile \<Rightarrow> panic + HostsFile" where
  "AddHost_seq parseIP toLower lineFormatter [] h = Inr h"
| "AddHost_seq parseIP toLower lineFormatter ((ipRaw, fqdnRaw, comment) # calls) h =
     (case AddHost parseIP toLower lineFormatter ipRaw fqdnRaw comment h of
        Inl p \<Rightarrow> Inl p
      | Inr (r, h1) \<Rightarrow> AddHost_seq parseIP toLower lineFormatter calls h1)"

definition records_with :: "string \<Rightarrow> HostsFile \<Rightarrow> HostsFileLine list" where
  "records_with hostname h = filter (\<lambda>l. hostname \<in> set (Hostnames l)) (HostsFileLines h)"

definition orphans :: "HostsFile \<Rightarrow> HostsFileLine list" where
  "orphans h = filter (\<lambda>l. LineType l = ADDRESS \<and> Hostnames l = []) (HostsFileLines h)"

definition all_hostnames :: "HostsFile \<Rightarrow> string list" where
  "all_hostnames h = concat (map Hostnames (HostsFileLines h))"

definition occurrences :: "string \<Rightarrow> HostsFile \<Rightarrow> nat" where
  "occurrences hostname h = count_list (all_hostnames h) hostname"

text \<open>
  The invariant of \<^verbatim>\<open>AddHost\<close>: no hostname stands twice in the document, and no
  line has an empty hostname list.
\<close>

definition hostnames_ok :: "HostsFile \<Rightarrow> bool" where
  "hostnames_ok h = (distinct (all_hostnames h) \<and> [] \<notin> set (map Hostnames (HostsFileLines h)))"

text \<open>
  Concrete documents: \<open>line_of a hs\<close> is the Address line with the address
  written \<open>a\<close> and the hostnames \<open>hs\<close>, not commented out; \<open>doc_of\<close> makes a
  document of lines.
\<close>

definition line_of :: "string \<Rightarrow> string list \<Rightarrow> HostsFileLine" where
  "line_of a hs = zero_line\<lparr>LineType := ADDRESS, Address := parseIPv4 a, Hostnames := hs\<rparr>"

definition doc_of :: "HostsFileLine list \<Rightarrow> HostsFile" where
  "doc_of ls = \<lparr>Config = None, HostsFileLines = ls\<rparr>"

section \<open>Rendering the document\<close>

lemma strings_Join_Cons:
  "strings_Join (x # xs) sep = x @ concat (map (\<lambda>y. sep @ y) xs)"
  by (induction xs arbitrary: x) simp_all

lemma count_list_concat_sep:
  "count_list (concat (map (\<lambda>y. c # f y) xs)) c =
     sum_list (map (\<lambda>y. count_list (f y) c) xs) + length xs"
  by (induction xs) simp_all

lemma length_concat_sep:
  "length (concat (map (\<lambda>y. c # f y) xs)) = sum_list (map (\<lambda>y. length (f y)) xs) + length xs"
  by (induction xs) simp_all

text \<open>
  Claim C9. For a document of \<open>N\<close> lines \<^verbatim>\<open>RenderHostsFile\<close> returns the renderings
  of the lines joined by \<open>N - 1\<close> newline characters, with nothing after the last
  rendering. The empty document renders to the empty string; a document
  \<open>l # ls\<close> renders to the rendering of \<open>l\<close> followed, for each further line, by one
  newline and the rendering of that line. So the newline characters of the
  result are those of the renderings and \<open>N - 1\<close> more, and its length is the sum
  of the lengths of the renderings plus \<open>N - 1\<close>. This holds for every
  \<^verbatim>\<open>lineFormatter\<close>.
\<close>

theorem RenderHostsFile_joins_lines:
  "RenderHostsFile F (h\<lparr>HostsFileLines := []\<rparr>) = [] \<and>
   RenderHostsFile F (h\<lparr>HostsFileLines := l # ls\<rparr>) =
     F l @ concat (map (\<lambda>m. newline # F m) ls) \<and>
   count_list (RenderHostsFile F h) newline =
     sum_list (map (\<lambda>m. count_list (F m) newline) (HostsFileLines h)) +
     (length (HostsFileLines h) - 1) \<and>
   length (RenderHostsFile F h) =
     sum_list (map (\<lambda>m. length (F m)) (HostsFileLines h)) + (length (HostsFileLines h) - 1)"
proof -
  have a: "RenderHostsFile F (h\<lparr>HostsFileLines := []\<rparr>) = []"
    by (simp add: RenderHostsFile_def)
  have b: "RenderHostsFile F (h\<lparr>HostsFileLines := l # ls\<rparr>) =
      F l @ concat (map (\<lambda>m. newline # F m) ls)"
    by (simp add: RenderHostsFile_def strings_Join_Cons comp_def)
  have c: "count_list (RenderHostsFile F h) newline =
     sum_list (map (\<lambda>m. count_list (F m) newline) (HostsFileLines h)) +
     (length (HostsFileLines h) - 1)"
  proof (cases "HostsFileLines h")
    case Nil
    then show ?thesis by (simp add: RenderHostsFile_def)
  next
    case (Cons m ms)
    then show ?thesis
      by (simp add: RenderHostsFile_def strings_Join_Cons comp_def count_list_concat_sep)
  qed
  have d: "length (RenderHostsFile F h) =
     sum_list (map (\<lambda>m. length (F m)) (HostsFileLines h)) + (length (HostsFileLines h) - 1)"
  proof (cases "HostsFileLines h")
    case Nil
    then show ?thesis by (simp add: RenderHostsFile_def)
  next
    case (Cons m ms)
    then show ?thesis
      by (simp add: RenderHostsFile_def strings_Join_Cons comp_def length_concat_sep)
  qed
  from a b c d show ?thesis by blast
qed

section \<open>Removing a row\<close>

lemma update_line_at:
  "HostsFileLines h = pre @ l # post \<Longrightarrow>
   update_line (length pre) f h = h\<lparr>HostsFileLines := pre @ f l # post\<rparr>"
  by (simp add: update_line_def)

lemma RemoveRow_at:
  "HostsFileLines h = pre @ l # post \<Longrightarrow>
   RemoveRow (int (length pre)) h = Inr (h\<lparr>HostsFileLines := pre @ post\<rparr>)"
  by (simp add: RemoveRow_def)

lemma RemoveRow_past_end:
  "int (length (HostsFileLines h)) \<le> row \<Longrightarrow> RemoveRow row h = Inr h"
  by (simp add: RemoveRow_def)

lemma RemoveRow_negative:
  "row < 0 \<Longrightarrow> RemoveRow row h = Inl SliceBoundsOutOfRange"
  by (simp add: RemoveRow_def)

text \<open>
  Claim C8 says that \<^verbatim>\<open>RemoveRow\<close> is a silent no-op for every row out of range.
  The guard \<^verbatim>\<open>row < len(h.HostsFileLines)\<close> lets a negative row through: on the
  document with the one line \<^verbatim>\<open>10.0.0.1 foo.local\<close>, \<^verbatim>\<open>RemoveRow(-1)\<close> panics in
  the slice expression \<^verbatim>\<open>h.HostsFileLines[:row]\<close>, while a row past the end is
  ignored and row 0 is deleted.
\<close>

theorem RemoveRow_negative_row_panics:
  "RemoveRow (- 1) (doc_of [line_of ''10.0.0.1'' [''foo.local'']]) = Inl SliceBoundsOutOfRange \<and>
   RemoveRow 1 (doc_of [line_of ''10.0.0.1'' [''foo.local'']]) =
     Inr (doc_of [line_of ''10.0.0.1'' [''foo.local'']]) \<and>
   RemoveRow 0 (doc_of [line_of ''10.0.0.1'' [''foo.local'']]) = Inr (doc_of [])"
  by (simp add: RemoveRow_def doc_of_def)

section \<open>Adding a host with an address that does not parse\<close>

text \<open>
  Claim C6. When the string \<open>ipRaw\<close> does not parse as an address (\<^verbatim>\<open>net.ParseIP\<close>
  returns nil), \<^verbatim>\<open>AddHost\<close> and \<^verbatim>\<open>AddHostRaw\<close> return the error
  \<^verbatim>\<open>Cannot parse IP address ...\<close> and no line, and the document they return is the
  document they were given.
\<close>

theorem AddHost_invalid_address:
  assumes "parseIP ipRaw = None"
  shows "AddHost parseIP toLower F ipRaw fqdnRaw comment h =
           Inr (Inl (ErrorString (''Cannot parse IP address '' @ ipRaw)), h) \<and>
         AddHostRaw parseIP toLower ipRaw fqdnRaw comment h =
           (Inl (ErrorString (''Cannot parse IP address '' @ ipRaw)), h)"
  using assms by (simp add: AddHost_def AddHostRaw_def)

theorem AddHost_invalid_address_witness:
  "parseIPv4 ''not.an.address'' = None \<and>
   AddHost parseIPv4 toLowerASCII rawFormatter ''not.an.address'' ''Foo.local'' ''note''
       (doc_of [line_of ''10.0.0.1'' [''foo.local'']]) =
     Inr (Inl (ErrorString ''Cannot parse IP address not.an.address''),
          doc_of [line_of ''10.0.0.1'' [''foo.local'']]) \<and>
   AddHostRaw parseIPv4 toLowerASCII ''not.an.address'' ''Foo.local'' ''note''
       (doc_of [line_of ''10.0.0.1'' [''foo.local'']]) =
     (Inl (ErrorString ''Cannot parse IP address not.an.address''),
      doc_of [line_of ''10.0.0.1'' [''foo.local'']])"
proof -
  have p: "parseIPv4 ''not.an.address'' = None"
    by (simp add: parseIPv4_def is_digit_def)
  show ?thesis
    using p AddHost_invalid_address [where parseIP = parseIPv4 and ipRaw = "''not.an.address''"
      and toLower = toLowerASCII and F = rawFormatter and fqdnRaw = "''Foo.local''"
      and comment = "''note''" and h = "doc_of [line_of ''10.0.0.1'' [''foo.local'']]", OF p]
    by simp
qed

section \<open>Commenting and uncommenting a row\<close>

lemma update_line_IsCommented_same:
  assumes "i < length (HostsFileLines h)" and "IsCommented (HostsFileLines h ! i) = b"
  shows "update_line i (\<lambda>l. l\<lparr>IsCommented := b\<rparr>) h = h"
proof -
  from assms(2) have "(HostsFileLines h ! i)\<lparr>IsCommented := b\<rparr> = HostsFileLines h ! i"
    by (cases "HostsFileLines h ! i") simp
  then show ?thesis by (simp add: update_line_def)
qed

lemma update_line_IsCommented_twice:
  "i < length (HostsFileLines h) \<Longrightarrow>
   update_line i (\<lambda>l. l\<lparr>IsCommented := c\<rparr>) (update_line i (\<lambda>l. l\<lparr>IsCommented := b\<rparr>) h) =
   update_line i (\<lambda>l. l\<lparr>IsCommented := c\<rparr>) h"
  by (simp add: update_line_def)

text \<open>
  Claim C4, as amended. Let row \<open>row\<close> hold an Address line. \<^verbatim>\<open>CommentByRow\<close> returns
  the document in which \<^verbatim>\<open>IsCommented\<close> of that line is true, with the error
  \<^verbatim>\<open>ErrAlredyCommentedLine\<close> when it was true before and no error otherwise;
  \<^verbatim>\<open>UncommentByRow\<close> on the result succeeds and returns the document in which
  \<^verbatim>\<open>IsCommented\<close> of that line is false. Both documents are the first one but for
  that flag (\<open>update_line\<close> replaces line \<open>row\<close> only, and the update touches no
  other field). When the line was not commented out at the start, the last
  document is the first one: the flag is restored. When it was commented out,
  the flag ends false and is not restored, which the counterexample shows.
\<close>

theorem CommentByRow_then_UncommentByRow:
  assumes "0 \<le> row" and "row < int (length (HostsFileLines h))"
    and "LineType (HostsFileLines h ! nat row) = ADDRESS"
  shows "CommentByRow row h =
           Inr (if IsCommented (HostsFileLines h ! nat row) then Some ErrAlredyCommentedLine else None,
                update_line (nat row) (\<lambda>l. l\<lparr>IsCommented := True\<rparr>) h) \<and>
         UncommentByRow row (update_line (nat row) (\<lambda>l. l\<lparr>IsCommented := True\<rparr>) h) =
           Inr (None, update_line (nat row) (\<lambda>l. l\<lparr>IsCommented := False\<rparr>) h) \<and>
         (\<not> IsCommented (HostsFileLines h ! nat row) \<longrightarrow>
            update_line (nat row) (\<lambda>l. l\<lparr>IsCommented := False\<rparr>) h = h)"
proof -
  from assms have i: "nat row < length (HostsFileLines h)" by simp
  have a: "CommentByRow row h =
           Inr (if IsCommented (HostsFileLines h ! nat row) then Some ErrAlredyCommentedLine else None,
                update_line (nat row) (\<lambda>l. l\<lparr>IsCommented := True\<rparr>) h)"
    using assms update_line_IsCommented_same [OF i, of True]
    by (simp add: CommentByRow_def)
  have b: "UncommentByRow row (update_line (nat row) (\<lambda>l. l\<lparr>IsCommented := True\<rparr>) h) =
           Inr (None, update_line (nat row) (\<lambda>l. l\<lparr>IsCommented := False\<rparr>) h)"
    using assms update_line_IsCommented_twice [OF i, of False True]
    by (simp add: UncommentByRow_def) (simp add: update_line_def)
  have c: "\<not> IsCommented (HostsFileLines h ! nat row) \<longrightarrow>
            update_line (nat row) (\<lambda>l. l\<lparr>IsCommented := False\<rparr>) h = h"
    using update_line_IsCommented_same [OF i, of False] by simp
  from a b c show ?thesis by blast
qed

theorem CommentByRow_then_UncommentByRow_witness:
  "(0::int) \<le> 0 \<and> (0::int) < int (length (HostsFileLines (doc_of [line_of ''10.0.0.1'' [''foo.local'']]))) \<and>
   LineType (HostsFileLines (doc_of [line_of ''10.0.0.1'' [''foo.local'']]) ! nat 0) = ADDRESS \<and>
   CommentByRow 0 (doc_of [line_of ''10.0.0.1'' [''foo.local'']]) =
     Inr (None, doc_of [(line_of ''10.0.0.1'' [''foo.local''])\<lparr>IsCommented := True\<rparr>]) \<and>
   UncommentByRow 0 (doc_of [(line_of ''10.0.0.1'' [''foo.local''])\<lparr>IsCommented := True\<rparr>]) =
     Inr (None, doc_of [line_of ''10.0.0.1'' [''foo.local'']])"
proof -
  let ?d = "doc_of [line_of ''10.0.0.1'' [''foo.local'']]"
  have a: "(0::int) \<le> 0" by simp
  have b: "(0::int) < int (length (HostsFileLines ?d))" by (simp add: doc_of_def)
  have c: "LineType (HostsFileLines ?d ! nat 0) = ADDRESS" by (simp add: doc_of_def line_of_def)
  have u: "update_line (nat 0) (\<lambda>l. l\<lparr>IsCommented := True\<rparr>) ?d =
      doc_of [(line_of ''10.0.0.1'' [''foo.local''])\<lparr>IsCommented := True\<rparr>]"
    by (simp add: update_line_def doc_of_def)
  have n: "\<not> IsCommented (HostsFileLines ?d ! nat 0)"
    by (simp add: doc_of_def line_of_def zero_line_def)
  from CommentByRow_then_UncommentByRow [OF a b c] n u
  have "CommentByRow 0 ?d =
     Inr (None, doc_of [(line_of ''10.0.0.1'' [''foo.local''])\<lparr>IsCommented := True\<rparr>])"
    and "UncommentByRow 0 (doc_of [(line_of ''10.0.0.1'' [''foo.local''])\<lparr>IsCommented := True\<rparr>]) =
     Inr (None, ?d)"
    by simp_all
  with a b c show ?thesis by blast
qed

text \<open>
  The claim as it was stated fails on an Address line that is commented out:
  \<^verbatim>\<open>CommentByRow(0)\<close> returns \<^verbatim>\<open>ErrAlredyCommentedLine\<close> and changes nothing, and
  \<^verbatim>\<open>UncommentByRow(0)\<close> then clears the flag, which was set at the start.
\<close>

theorem CommentByRow_then_UncommentByRow_counterexample:
  "LineType (HostsFileLines (doc_of [(line_of ''10.0.0.1'' [''foo.local''])\<lparr>IsCommented := True\<rparr>]) ! 0) = ADDRESS \<and>
   IsCommented (HostsFileLines (doc_of [(line_of ''10.0.0.1'' [''foo.local''])\<lparr>IsCommented := True\<rparr>]) ! 0) \<and>
   CommentByRow 0 (doc_of [(line_of ''10.0.0.1'' [''foo.local''])\<lparr>IsCommented := True\<rparr>]) =
     Inr (Some ErrAlredyCommentedLine,
          doc_of [(line_of ''10.0.0.1'' [''foo.local''])\<lparr>IsCommented := True\<rparr>]) \<and>
   UncommentByRow 0 (doc_of [(line_of ''10.0.0.1'' [''foo.local''])\<lparr>IsCommented := True\<rparr>]) =
     Inr (None, doc_of [(line_of ''10.0.0.1'' [''foo.local''])\<lparr>IsCommented := False\<rparr>]) \<and>
   \<not> IsCommented (HostsFileLines (doc_of [(line_of ''10.0.0.1'' [''foo.local''])\<lparr>IsCommented := False\<rparr>]) ! 0)"
  by (simp add: CommentByRow_def UncommentByRow_def update_line_def doc_of_def line_of_def)

section \<open>Commenting and uncommenting by address and by hostname\<close>

text \<open>
  Whatever follows the first line, a key that the first line does not match is
  reported as not found (by \<^verbatim>\<open>UncommentByIP\<close>: as not an Address line).
\<close>

lemma CommentByIP_first_line_differs:
  assumes "HostsFileLines h = l # ls" and "\<not> IP_Equal ip (Address l)"
  shows "CommentByIP ip h = (Some ErrAddressNotFound, h)"
    and "UncommentByIP ip h = (Some ErrNotAnAddressLine, h)"
  using assms by (simp_all add: CommentByIP_def UncommentByIP_def)

lemma CommentByHostname_inner_absent:
  "hostname \<notin> set hns \<Longrightarrow> CommentByHostname_inner hostname idx hns h = None"
  by (induction hns) auto

lemma UncommentByHostname_inner_absent:
  "hostname \<notin> set hns \<Longrightarrow> UncommentByHostname_inner hostname idx hns h = None"
  by (induction hns) auto

lemma CommentByHostname_first_line_differs:
  assumes "HostsFileLines h = l # ls" and "hostname \<notin> set (Hostnames l)"
  shows "CommentByHostname hostname h = (Some ErrHostnameNotFound, h)"
    and "UncommentByHostname hostname h = (Some ErrHostnameNotFound, h)"
  using assms
  by (simp_all add: CommentByHostname_def UncommentByHostname_def
      CommentByHostname_inner_absent UncommentByHostname_inner_absent)

text \<open>
  Claim C5 says that the operations by hostname and by IP scan the whole
  document. They test the first line only: on the document with the lines
  \<^verbatim>\<open>10.0.0.1 foo.local\<close> and \<^verbatim>\<open>10.0.0.2 bar.local\<close>, the lookups find
  \<^verbatim>\<open>bar.local\<close> and \<^verbatim>\<open>10.0.0.2\<close> in row 1, but \<^verbatim>\<open>CommentByHostname\<close> returns
  \<^verbatim>\<open>ErrHostnameNotFound\<close> and \<^verbatim>\<open>CommentByIP\<close> returns \<^verbatim>\<open>ErrAddressNotFound\<close>, and the
  document stays as it is.
\<close>

theorem CommentByHostname_tests_first_line_only:
  "GetHostsFileLineByHostname ''bar.local''
       (doc_of [line_of ''10.0.0.1'' [''foo.local''], line_of ''10.0.0.2'' [''bar.local'']]) =
     Some (1, line_of ''10.0.0.2'' [''bar.local'']) \<and>
   CommentByHostname ''bar.local''
       (doc_of [line_of ''10.0.0.1'' [''foo.local''], line_of ''10.0.0.2'' [''bar.local'']]) =
     (Some ErrHostnameNotFound,
      doc_of [line_of ''10.0.0.1'' [''foo.local''], line_of ''10.0.0.2'' [''bar.local'']]) \<and>
   GetHostsFileLineByIP (parseIPv4 ''10.0.0.2'')
       (doc_of [line_of ''10.0.0.1'' [''foo.local''], line_of ''10.0.0.2'' [''bar.local'']]) =
     Some (1, line_of ''10.0.0.2'' [''bar.local'']) \<and>
   CommentByIP (parseIPv4 ''10.0.0.2'')
       (doc_of [line_of ''10.0.0.1'' [''foo.local''], line_of ''10.0.0.2'' [''bar.local'']]) =
     (Some ErrAddressNotFound,
      doc_of [line_of ''10.0.0.1'' [''foo.local''], line_of ''10.0.0.2'' [''bar.local'']])"
  by code_simp

text \<open>
  Claim C3 says that each failure of a comment or uncomment operation has an
  error of its own. On the document with the one Address line
  \<^verbatim>\<open>10.0.0.1 foo.local\<close>: \<^verbatim>\<open>UncommentByIP\<close> of the absent address \<^verbatim>\<open>10.0.0.2\<close> returns
  \<^verbatim>\<open>ErrNotAnAddressLine\<close>, where \<^verbatim>\<open>CommentByIP\<close> returns \<^verbatim>\<open>ErrAddressNotFound\<close>;
  \<^verbatim>\<open>CommentByRow(1)\<close> and \<^verbatim>\<open>UncommentByRow(1)\<close>, one past the last row, panic
  instead of returning an error, and row 2 gives \<^verbatim>\<open>ErrUnknown\<close>; on the empty
  document a hostname that is not found gives \<^verbatim>\<open>ErrUnknown\<close> as well.
\<close>

theorem Uncomment_errors_mixed_up:
  "LineType (HostsFileLines (doc_of [line_of ''10.0.0.1'' [''foo.local'']]) ! 0) = ADDRESS \<and>
   UncommentByIP (parseIPv4 ''10.0.0.2'') (doc_of [line_of ''10.0.0.1'' [''foo.local'']]) =
     (Some ErrNotAnAddressLine, doc_of [line_of ''10.0.0.1'' [''foo.local'']]) \<and>
   CommentByIP (parseIPv4 ''10.0.0.2'') (doc_of [line_of ''10.0.0.1'' [''foo.local'']]) =
     (Some ErrAddressNotFound, doc_of [line_of ''10.0.0.1'' [''foo.local'']]) \<and>
   CommentByRow 1 (doc_of [line_of ''10.0.0.1'' [''foo.local'']]) = Inl IndexOutOfRange \<and>
   UncommentByRow 1 (doc_of [line_of ''10.0.0.1'' [''foo.local'']]) = Inl IndexOutOfRange \<and>
   CommentByRow 2 (doc_of [line_of ''10.0.0.1'' [''foo.local'']]) =
     Inr (Some ErrUnknown, doc_of [line_of ''10.0.0.1'' [''foo.local'']]) \<and>
   CommentByHostname ''foo.local'' (doc_of []) = (Some ErrUnknown, doc_of [])"
  by code_simp

text \<open>
  Claim C10, as amended. Let the first line of the document be a Comment or an
  Empty line, with no address. For a string that does not parse as an address,
  \<^verbatim>\<open>CommentByAddress\<close> passes the nil address on to \<^verbatim>\<open>CommentByIP\<close>, which finds it
  equal to the nil address of that line and never looks at the line type. When
  \<^verbatim>\<open>IsCommented\<close> of the line is not yet set, the call sets it and returns no
  error; when it is already set, the call returns \<^verbatim>\<open>ErrAlredyCommentedLine\<close> and
  leaves the document as it is. In neither case is an invalid address or a
  missing address reported.
\<close>

theorem CommentByAddress_nil_first_line:
  assumes "HostsFileLines h = l # ls"
    and "LineType l = COMMENT \<or> LineType l = EMPTY"
    and "Address l = None"
    and "parseIP address = None"
  shows "IP_Equal (parseIP address) (Address l) \<and>
         CommentByAddress parseIP address h =
           (if IsCommented l then (Some ErrAlredyCommentedLine, h)
            else (None, h\<lparr>HostsFileLines := l\<lparr>IsCommented := True\<rparr> # ls\<rparr>))"
  using assms
  by (simp add: CommentByAddress_def CommentByIP_def IP_Equal_def ip_bytes_def update_line_def)

theorem CommentByAddress_nil_first_line_witness:
  "snd (AddComment rawFormatter ''note'' (doc_of [])) =
     doc_of [zero_line\<lparr>LineType := COMMENT, Raw := ''# note''\<rparr>] \<and>
   HostsFileLines (doc_of [zero_line\<lparr>LineType := COMMENT, Raw := ''# note''\<rparr>]) =
     zero_line\<lparr>LineType := COMMENT, Raw := ''# note''\<rparr> # [] \<and>
   (LineType (zero_line\<lparr>LineType := COMMENT, Raw := ''# note''\<rparr>) = COMMENT \<or>
    LineType (zero_line\<lparr>LineType := COMMENT, Raw := ''# note''\<rparr>) = EMPTY) \<and>
   Address (zero_line\<lparr>LineType := COMMENT, Raw := ''# note''\<rparr>) = None \<and>
   parseIPv4 ''no address'' = None \<and>
   IsCommented (zero_line\<lparr>LineType := COMMENT, Raw := ''# note''\<rparr>) = False \<and>
   CommentByAddress parseIPv4 ''no address'' (doc_of [zero_line\<lparr>LineType := COMMENT, Raw := ''# note''\<rparr>]) =
     (None, doc_of [zero_line\<lparr>LineType := COMMENT, Raw := ''# note'', IsCommented := True\<rparr>])"
proof -
  let ?l = "zero_line\<lparr>LineType := COMMENT, Raw := ''# note''\<rparr>"
  have m: "snd (AddComment rawFormatter ''note'' (doc_of [])) = doc_of [?l]"
    by (simp add: AddComment_def rawFormatter_def doc_of_def Let_def)
  have a: "HostsFileLines (doc_of [?l]) = ?l # []" by (simp add: doc_of_def)
  have b: "LineType ?l = COMMENT \<or> LineType ?l = EMPTY" by simp
  have c: "Address ?l = None" by (simp add: zero_line_def)
  have d: "IsCommented ?l = False" by (simp add: zero_line_def)
  have e: "parseIPv4 ''no address'' = None" by (simp add: parseIPv4_def is_digit_def)
  from CommentByAddress_nil_first_line [where h = "doc_of [?l]" and l = ?l and ls = "[]"
      and parseIP = parseIPv4 and address = "''no address''", OF a b c e] d
  have "CommentByAddress parseIPv4 ''no address'' (doc_of [?l]) =
     (None, doc_of [?l\<lparr>IsCommented := True\<rparr>])"
    by (simp add: doc_of_def)
  with m a b c d e show ?thesis by blast
qed

text \<open>
  The claim as it was stated promises success on every Comment or Empty first
  line. It fails on one whose flag is set, as the same call leaves it: on the
  document made by \<^verbatim>\<open>AddComment("note")\<close>, a first \<^verbatim>\<open>CommentByAddress("no address")\<close>
  sets the flag of the comment line and succeeds, and the second returns
  \<^verbatim>\<open>ErrAlredyCommentedLine\<close>.
\<close>

theorem CommentByAddress_nil_first_line_counterexample:
  "snd (AddComment rawFormatter ''note'' (doc_of [])) =
     doc_of [zero_line\<lparr>LineType := COMMENT, Raw := ''# note''\<rparr>] \<and>
   parseIPv4 ''no address'' = None \<and>
   CommentByAddress parseIPv4 ''no address''
       (doc_of [zero_line\<lparr>LineType := COMMENT, Raw := ''# note''\<rparr>]) =
     (None, doc_of [zero_line\<lparr>LineType := COMMENT, Raw := ''# note'', IsCommented := True\<rparr>]) \<and>
   LineType (zero_line\<lparr>LineType := COMMENT, Raw := ''# note'', IsCommented := True\<rparr>) = COMMENT \<and>
   Address (zero_line\<lparr>LineType := COMMENT, Raw := ''# note'', IsCommented := True\<rparr>) = None \<and>
   CommentByAddress parseIPv4 ''no address''
       (doc_of [zero_line\<lparr>LineType := COMMENT, Raw := ''# note'', IsCommented := True\<rparr>]) =
     (Some ErrAlredyCommentedLine,
      doc_of [zero_line\<lparr>LineType := COMMENT, Raw := ''# note'', IsCommented := True\<rparr>])"
  by code_simp

section \<open>Adding a host\<close>

subsection \<open>The lookup and the two loops\<close>

lemma IP_Equal_refl: "IP_Equal ip ip"
  by (simp add: IP_Equal_def)

lemma LookupByHostname_loop_missing:
  "(\<forall>m \<in> set ls. hn \<notin> set (Hostnames m)) \<Longrightarrow>
   LookupByHostname_loop hn i ls = Inl (ErrorString ''Hostname not found'')"
  by (induction ls arbitrary: i) simp_all

lemma LookupByHostname_loop_at:
  "(\<forall>m \<in> set pre. hn \<notin> set (Hostnames m)) \<Longrightarrow> hn \<in> set (Hostnames l) \<Longrightarrow>
   LookupByHostname_loop hn i (pre @ l # post) = Inr (i + length pre, Address l)"
  by (induction pre arbitrary: i) simp_all

lemma LookupByHostname_loop_cases:
  "(LookupByHostname_loop hn i ls = Inl (ErrorString ''Hostname not found'') \<and>
      (\<forall>m \<in> set ls. hn \<notin> set (Hostnames m))) \<or>
   (\<exists>pre l post. ls = pre @ l # post \<and> (\<forall>m \<in> set pre. hn \<notin> set (Hostnames m)) \<and>
      hn \<in> set (Hostnames l) \<and>
      LookupByHostname_loop hn i ls = Inr (i + length pre, Address l))"
proof (induction ls arbitrary: i)
  case Nil
  then show ?case by simp
next
  case (Cons a ls)
  show ?case
  proof (cases "hn \<in> set (Hostnames a)")
    case True
    then have "a # ls = [] @ a # ls \<and> (\<forall>m \<in> set []. hn \<notin> set (Hostnames m)) \<and>
      hn \<in> set (Hostnames a) \<and>
      LookupByHostname_loop hn i (a # ls) = Inr (i + length ([]::HostsFileLine list), Address a)"
      by simp
    then show ?thesis by blast
  next
    case False
    from Cons.IH [of "Suc i"] show ?thesis
    proof
      assume "LookupByHostname_loop hn (Suc i) ls = Inl (ErrorString ''Hostname not found'') \<and>
        (\<forall>m \<in> set ls. hn \<notin> set (Hostnames m))"
      with False show ?thesis by simp
    next
      assume "\<exists>pre l post. ls = pre @ l # post \<and> (\<forall>m \<in> set pre. hn \<notin> set (Hostnames m)) \<and>
        hn \<in> set (Hostnames l) \<and>
        LookupByHostname_loop hn (Suc i) ls = Inr (Suc i + length pre, Address l)"
      then obtain pre l post where p: "ls = pre @ l # post" "\<forall>m \<in> set pre. hn \<notin> set (Hostnames m)"
        "hn \<in> set (Hostnames l)" "LookupByHostname_loop hn (Suc i) ls = Inr (Suc i + length pre, Address l)"
        by blast
      with False have "a # ls = (a # pre) @ l # post \<and> (\<forall>m \<in> set (a # pre). hn \<notin> set (Hostnames m)) \<and>
        hn \<in> set (Hostnames l) \<and>
        LookupByHostname_loop hn i (a # ls) = Inr (i + length (a # pre), Address l)"
        by simp
      then show ?thesis by blast
    qed
  qed
qed

lemma AddHost_find_cases:
  "(AddHost_find ip i ls = None) \<or>
   (\<exists>pre l post. ls = pre @ l # post \<and> IP_Equal (Address l) ip \<and>
      AddHost_find ip i ls = Some (i + length pre))"
proof (induction ls arbitrary: i)
  case Nil
  then show ?case by simp
next
  case (Cons a ls)
  show ?case
  proof (cases "IP_Equal (Address a) ip")
    case True
    then have "a # ls = [] @ a # ls \<and> IP_Equal (Address a) ip \<and>
      AddHost_find ip i (a # ls) = Some (i + length ([]::HostsFileLine list))"
      by simp
    then show ?thesis by blast
  next
    case False
    from Cons.IH [of "Suc i"] show ?thesis
    proof
      assume "AddHost_find ip (Suc i) ls = None"
      with False show ?thesis by simp
    next
      assume "\<exists>pre l post. ls = pre @ l # post \<and> IP_Equal (Address l) ip \<and>
        AddHost_find ip (Suc i) ls = Some (Suc i + length pre)"
      then obtain pre l post where p: "ls = pre @ l # post" "IP_Equal (Address l) ip"
        "AddHost_find ip (Suc i) ls = Some (Suc i + length pre)"
        by blast
      with False have "a # ls = (a # pre) @ l # post \<and> IP_Equal (Address l) ip \<and>
        AddHost_find ip i (a # ls) = Some (i + length (a # pre))"
        by simp
      then show ?thesis by blast
    qed
  qed
qed

text \<open>
  The detaching loop: iterations whose cell differs from the hostname do
  nothing, so the loop runs idle before the first match and after the last.
\<close>

lemma detach_loop_skip:
  "hn \<notin> set (take k (drop i arr)) \<Longrightarrow> i + k \<le> length arr \<Longrightarrow>
   AddHost_detach_loop hn idx k i arr own h = Inr h"
proof (induction k arbitrary: i)
  case 0
  then show ?case by simp
next
  case (Suc k)
  from Suc.prems have lt: "i < length arr" by simp
  then have d: "drop i arr = arr ! i # drop (Suc i) arr"
    by (simp add: Cons_nth_drop_Suc)
  with Suc.prems have ne: "arr ! i \<noteq> hn" and rest: "hn \<notin> set (take k (drop (Suc i) arr))"
    by auto
  from Suc.prems have "Suc i + k \<le> length arr" by simp
  with Suc.IH [OF rest] ne show ?case by simp
qed

lemma detach_loop_step:
  "arr ! i \<noteq> hn \<Longrightarrow>
   AddHost_detach_loop hn idx (Suc k) i arr own h = AddHost_detach_loop hn idx k (Suc i) arr own h"
  by simp

lemma detach_loop_prefix:
  "(\<forall>j. i \<le> j \<and> j < i + n \<longrightarrow> arr ! j \<noteq> hn) \<Longrightarrow>
   AddHost_detach_loop hn idx (n + k) i arr own h = AddHost_detach_loop hn idx k (i + n) arr own h"
proof (induction n arbitrary: i)
  case 0
  then show ?case by simp
next
  case (Suc n)
  from Suc.prems have ne: "arr ! i \<noteq> hn" by simp
  from Suc.prems have rest: "\<forall>j. Suc i \<le> j \<and> j < Suc i + n \<longrightarrow> arr ! j \<noteq> hn" by simp
  have "AddHost_detach_loop hn idx (Suc n + k) i arr own h
      = AddHost_detach_loop hn idx (n + k) (Suc i) arr own h"
    using detach_loop_step [OF ne] by simp
  also have "\<dots> = AddHost_detach_loop hn idx k (Suc i + n) arr own h"
    by (rule Suc.IH [OF rest])
  finally show ?case by simp
qed

text \<open>
  The step at the match, for a line that holds the hostname once: the hostname
  is cut out, and the line is removed when at most one hostname is left.
\<close>

lemma detach_tail_clean:
  assumes "hn \<notin> set ys"
  shows "hn \<notin> set (take k (drop (Suc (length xs)) ((xs @ ys) @ drop (length (xs @ ys)) (xs @ hn # ys))))"
proof -
  have "drop (length (xs @ ys)) (xs @ hn # ys) = drop (length ys) (hn # ys)"
    by simp
  moreover have "set (drop (length ys) (hn # ys)) \<subseteq> (if ys = [] then {hn} else set ys)"
    by (cases ys) (auto dest: in_set_dropD)
  ultimately have "set (drop (Suc (length xs)) ((xs @ ys) @ drop (length (xs @ ys)) (xs @ hn # ys))) \<subseteq> set ys"
    by (cases ys) (auto dest: in_set_dropD)
  with assms show ?thesis by (auto dest: in_set_takeD)
qed

lemma detach_loop_match:
  assumes "arr ! i = hn" and "idx < length (HostsFileLines h)"
    and "Hostnames (HostsFileLines h ! idx) = s" and "1 < length s" and "i < length s"
    and "s1 = take i s @ drop (Suc i) s"
    and "h1 = update_line idx (\<lambda>l. l\<lparr>Hostnames := s1\<rparr>) h"
    and "arr1 = s1 @ drop (length s1) arr"
  shows "AddHost_detach_loop hn idx (Suc k) i arr True h =
      (if length s1 \<le> 1 then
         (case RemoveRow (int idx) h1 of Inl p \<Rightarrow> Inl p
          | Inr h2 \<Rightarrow> AddHost_detach_loop hn idx k (Suc i) arr1 False h2)
       else AddHost_detach_loop hn idx k (Suc i) arr1 True h1)"
  using assms(1-5) unfolding assms(6-8) by (simp add: Let_def)

lemma AddHost_detach_once:
  assumes ls: "HostsFileLines h = pre @ l # post"
    and hs: "Hostnames l = xs @ hn # ys"
    and xs: "hn \<notin> set xs" and ys: "hn \<notin> set ys"
  shows "AddHost_detach hn (length pre) h =
     Inr (h\<lparr>HostsFileLines :=
        (if length (xs @ ys) \<le> 1 then pre @ post else pre @ l\<lparr>Hostnames := xs @ ys\<rparr> # post)\<rparr>)"
proof -
  define s where "s = xs @ hn # ys"
  define idx where "idx = length pre"
  have s: "Hostnames (HostsFileLines h ! idx) = s"
    using ls hs by (simp add: s_def idx_def)
  have before: "\<forall>j. 0 \<le> j \<and> j < 0 + length xs \<longrightarrow> s ! j \<noteq> hn"
    using xs by (auto simp: nth_append s_def)
  have inrange: "idx < length (HostsFileLines h)" using ls by (simp add: idx_def)
  have at: "s ! length xs = hn" by (simp add: s_def)
  have "AddHost_detach hn idx h = AddHost_detach_loop hn idx (length xs + Suc (length ys)) 0 s True h"
    using s by (simp add: AddHost_detach_def s_def)
  also have "\<dots> = AddHost_detach_loop hn idx (Suc (length ys)) (length xs) s True h"
    using detach_loop_prefix [OF before, of idx "Suc (length ys)" True h] by simp
  also have "\<dots> = Inr (h\<lparr>HostsFileLines :=
        (if length (xs @ ys) \<le> 1 then pre @ post else pre @ l\<lparr>Hostnames := xs @ ys\<rparr> # post)\<rparr>)"
  proof (cases "1 < length s")
    case False
    then have e: "xs = []" "ys = []" by (cases xs; simp add: s_def)+
    have "AddHost_detach_loop hn idx (Suc (length ys)) (length xs) s True h =
        (case RemoveRow (int idx) h of Inl p \<Rightarrow> Inl p | Inr h2 \<Rightarrow> Inr h2)"
      using False at inrange s e by (simp split: sum.split)
    then show ?thesis
      using e RemoveRow_at [OF ls] by (simp add: idx_def)
  next
    case True
    define s1 where "s1 = take (length xs) s @ drop (Suc (length xs)) s"
    define h1 where "h1 = update_line idx (\<lambda>l. l\<lparr>Hostnames := s1\<rparr>) h"
    define arr1 where "arr1 = s1 @ drop (length s1) s"
    have s1: "s1 = xs @ ys" by (simp add: s1_def s_def)
    have h1: "h1 = h\<lparr>HostsFileLines := pre @ l\<lparr>Hostnames := xs @ ys\<rparr> # post\<rparr>"
      unfolding h1_def idx_def s1 by (rule update_line_at [OF ls])
    have ls1: "HostsFileLines h1 = pre @ l\<lparr>Hostnames := xs @ ys\<rparr> # post"
      by (simp add: h1)
    have clean: "hn \<notin> set (take (length ys) (drop (Suc (length xs)) arr1))"
      unfolding arr1_def s1 s_def by (rule detach_tail_clean [OF ys])
    have len: "Suc (length xs) + length ys \<le> length arr1"
      by (simp add: arr1_def s1 s_def)
    have skip: "AddHost_detach_loop hn idx (length ys) (Suc (length xs)) arr1 own h' = Inr h'" for own h'
      by (rule detach_loop_skip [OF clean len])
    have i: "length xs < length s" by (simp add: s_def)
    have rm: "RemoveRow (int idx) h1 = Inr (h1\<lparr>HostsFileLines := pre @ post\<rparr>)"
      unfolding idx_def by (rule RemoveRow_at [OF ls1])
    have "AddHost_detach_loop hn idx (Suc (length ys)) (length xs) s True h =
        (if length s1 \<le> 1 then Inr (h1\<lparr>HostsFileLines := pre @ post\<rparr>) else Inr h1)"
      unfolding detach_loop_match [OF at inrange s True i s1_def h1_def arr1_def]
      by (simp add: rm skip)
    then show ?thesis by (simp add: s1 h1)
  qed
  finally show ?thesis by (simp add: idx_def)
qed

text \<open>
  Claim C1 says that the previous line of a hostname survives when it holds
  another hostname. The loop tests \<^verbatim>\<open>len(...) <= 1\<close> after it has cut the hostname
  out, so a line with exactly two hostnames is removed together with the one
  that remains: adding \<^verbatim>\<open>bar.local\<close> for \<^verbatim>\<open>192.168.1.1\<close> to the document with the
  lines \<^verbatim>\<open>192.168.1.1 foo.local\<close> and \<^verbatim>\<open>10.0.0.1 bar.local baz.local\<close> leaves the one
  line \<^verbatim>\<open>192.168.1.1 foo.local bar.local\<close>, and \<^verbatim>\<open>baz.local\<close> is lost. With three
  hostnames the line survives with the other two.
\<close>

theorem AddHost_removes_line_with_two_hostnames:
  "AddHost parseIPv4 toLowerASCII rawFormatter ''192.168.1.1'' ''bar.local'' ''''
       (doc_of [line_of ''192.168.1.1'' [''foo.local''],
                line_of ''10.0.0.1'' [''bar.local'', ''baz.local'']]) =
     Inr (Inr (0, line_of ''192.168.1.1'' [''foo.local'', ''bar.local'']),
          doc_of [line_of ''192.168.1.1'' [''foo.local'', ''bar.local'']]) \<and>
   AddHost parseIPv4 toLowerASCII rawFormatter ''192.168.1.1'' ''bar.local'' ''''
       (doc_of [line_of ''192.168.1.1'' [''foo.local''],
                line_of ''10.0.0.1'' [''bar.local'', ''baz.local'', ''qux.local'']]) =
     Inr (Inr (0, line_of ''192.168.1.1'' [''foo.local'', ''bar.local'']),
          doc_of [line_of ''192.168.1.1'' [''foo.local'', ''bar.local''],
                  line_of ''10.0.0.1'' [''baz.local'', ''qux.local'']])"
  by code_simp

subsection \<open>Hostnames stay unique\<close>

lemma AddHost_attach_result:
  assumes free: "hn \<notin> set (all_hostnames h)"
  shows "\<exists>pre l post. AddHost_attach F ip hn c h =
            (Inr (length pre, l), h\<lparr>HostsFileLines := pre @ l # post\<rparr>) \<and>
          IP_Equal (Address l) ip \<and>
          ((\<exists>l0. HostsFileLines h = pre @ l0 # post \<and> Hostnames l = Hostnames l0 @ [hn]) \<or>
           (HostsFileLines h = pre \<and> post = [] \<and> Hostnames l = [hn]))"
proof -
  from AddHost_find_cases [of ip 0 "HostsFileLines h"] show ?thesis
  proof
    assume none: "AddHost_find ip 0 (HostsFileLines h) = None"
    define l where "l = (zero_line\<lparr>LineType := ADDRESS, Address := ip, Hostnames := [hn],
                       Comment := c, IsCommented := False\<rparr>)\<lparr>Raw := F (zero_line\<lparr>LineType := ADDRESS, Address := ip, Hostnames := [hn],
                       Comment := c, IsCommented := False\<rparr>)\<rparr>"
    have "AddHost_attach F ip hn c h =
            (Inr (length (HostsFileLines h), l), h\<lparr>HostsFileLines := HostsFileLines h @ l # []\<rparr>)"
      using none by (simp add: AddHost_attach_def Let_def l_def)
    moreover have "IP_Equal (Address l) ip" by (simp add: l_def IP_Equal_refl)
    moreover have "Hostnames l = [hn]" by (simp add: l_def)
    ultimately show ?thesis by blast
  next
    assume "\<exists>pre l post. HostsFileLines h = pre @ l # post \<and> IP_Equal (Address l) ip \<and>
      AddHost_find ip 0 (HostsFileLines h) = Some (0 + length pre)"
    then obtain pre l0 post where d: "HostsFileLines h = pre @ l0 # post" "IP_Equal (Address l0) ip"
      "AddHost_find ip 0 (HostsFileLines h) = Some (length pre)"
      by auto
    define l where "l = (if c \<noteq> [] then l0\<lparr>Hostnames := Hostnames l0 @ [hn], Comment := c\<rparr>
                         else l0\<lparr>Hostnames := Hostnames l0 @ [hn]\<rparr>)"
    have u1: "update_line (length pre) (\<lambda>l. l\<lparr>Hostnames := Hostnames l @ [hn]\<rparr>) h =
        h\<lparr>HostsFileLines := pre @ l0\<lparr>Hostnames := Hostnames l0 @ [hn]\<rparr> # post\<rparr>"
      by (rule update_line_at [OF d(1)])
    have "AddHost_attach F ip hn c h = (Inr (length pre, l), h\<lparr>HostsFileLines := pre @ l # post\<rparr>)"
      using d(3) by (simp add: AddHost_attach_def Let_def l_def update_line_def d(1))
    moreover have "IP_Equal (Address l) ip" using d(2) by (simp add: l_def)
    moreover have "Hostnames l = Hostnames l0 @ [hn]" by (simp add: l_def)
    ultimately show ?thesis using d(1) by blast
  qed
qed

lemma AddHost_attach_ok:
  assumes ok: "hostnames_ok h" and free: "hn \<notin> set (all_hostnames h)"
  shows "\<exists>r h1. AddHost_attach F ip hn c h = (Inr r, h1) \<and> hostnames_ok h1"
proof -
  from AddHost_attach_result [OF free, of F ip c]
  obtain pre l post where r: "AddHost_attach F ip hn c h =
            (Inr (length pre, l), h\<lparr>HostsFileLines := pre @ l # post\<rparr>)"
     and alt: "(\<exists>l0. HostsFileLines h = pre @ l0 # post \<and> Hostnames l = Hostnames l0 @ [hn]) \<or>
           (HostsFileLines h = pre \<and> post = [] \<and> Hostnames l = [hn])"
    by blast
  from alt have "hostnames_ok (h\<lparr>HostsFileLines := pre @ l # post\<rparr>)"
  proof
    assume "\<exists>l0. HostsFileLines h = pre @ l0 # post \<and> Hostnames l = Hostnames l0 @ [hn]"
    then obtain l0 where "HostsFileLines h = pre @ l0 # post" "Hostnames l = Hostnames l0 @ [hn]"
      by blast
    with ok free show ?thesis
      by (auto simp: hostnames_ok_def all_hostnames_def)
  next
    assume "HostsFileLines h = pre \<and> post = [] \<and> Hostnames l = [hn]"
    with ok free show ?thesis
      by (auto simp: hostnames_ok_def all_hostnames_def)
  qed
  with r show ?thesis by blast
qed

lemma occurs_once_split:
  assumes "hn \<in> set s" and "count_list s hn \<le> 1"
  shows "\<exists>xs ys. s = xs @ hn # ys \<and> hn \<notin> set xs \<and> hn \<notin> set ys"
proof -
  from split_list_first [OF assms(1)] obtain xs ys where s: "s = xs @ hn # ys" "hn \<notin> set xs"
    by blast
  with assms(2) have "count_list ys hn = 0" by simp
  then have "hn \<notin> set ys" by (simp add: count_list_0_iff)
  with s show ?thesis by blast
qed

text \<open>
  What detaching leaves, for a hostname that stands once in the document: the
  hostname is gone, and the invariant is kept.
\<close>

lemma AddHost_detach_result:
  assumes ls: "HostsFileLines h = pre @ l # post"
    and inl: "hn \<in> set (Hostnames l)"
    and once: "count_list (all_hostnames h) hn \<le> 1"
  shows "\<exists>h1. AddHost_detach hn (length pre) h = Inr h1 \<and> hn \<notin> set (all_hostnames h1) \<and>
           (hostnames_ok h \<longrightarrow> hostnames_ok h1)"
proof -
  have c: "count_list (concat (map Hostnames pre)) hn + count_list (Hostnames l) hn +
           count_list (concat (map Hostnames post)) hn \<le> 1"
    using once ls by (simp add: all_hostnames_def)
  have "count_list (Hostnames l) hn \<noteq> 0"
    using inl by (simp add: count_list_0_iff)
  then have pos: "0 < count_list (Hostnames l) hn" by simp
  from c pos have l1: "count_list (Hostnames l) hn \<le> 1"
    and pre0: "count_list (concat (map Hostnames pre)) hn = 0"
    and post0: "count_list (concat (map Hostnames post)) hn = 0" by linarith+
  from pre0 have npre: "hn \<notin> set (concat (map Hostnames pre))" by (simp add: count_list_0_iff)
  from post0 have npost: "hn \<notin> set (concat (map Hostnames post))" by (simp add: count_list_0_iff)
  from occurs_once_split [OF inl l1] obtain xs ys where
    s: "Hostnames l = xs @ hn # ys" "hn \<notin> set xs" "hn \<notin> set ys" by blast
  define h1 where "h1 = h\<lparr>HostsFileLines :=
        (if length (xs @ ys) \<le> 1 then pre @ post else pre @ l\<lparr>Hostnames := xs @ ys\<rparr> # post)\<rparr>"
  have d: "AddHost_detach hn (length pre) h = Inr h1"
    unfolding h1_def by (rule AddHost_detach_once [OF ls s])
  have free: "hn \<notin> set (all_hostnames h1)"
    using npre npost s(2,3) by (auto simp: h1_def all_hostnames_def)
  have okp: "hostnames_ok h1" if ok: "hostnames_ok h"
  proof (cases "length (xs @ ys) \<le> 1")
    case True
    with ok ls s show ?thesis
      by (auto simp: hostnames_ok_def all_hostnames_def h1_def)
  next
    case False
    then have "xs @ ys \<noteq> []" by auto
    with False ok ls s show ?thesis
      by (auto simp: hostnames_ok_def all_hostnames_def h1_def)
  qed
  from d free okp show ?thesis by blast
qed

lemma distinct_count_list_le: "distinct xs \<Longrightarrow> count_list xs x \<le> 1"
  by (induction xs) (auto simp: count_list_0_iff)

lemma update_Comment_ok:
  assumes "HostsFileLines h = pre @ l # post" and "hostnames_ok h"
  shows "hostnames_ok (update_line (length pre) (\<lambda>l. l\<lparr>Comment := c\<rparr>) h)"
  using assms by (simp add: update_line_at [OF assms(1)] hostnames_ok_def all_hostnames_def)

lemma AddHost_ok:
  assumes ok: "hostnames_ok h"
  shows "\<exists>r h1. AddHost parseIP toLower F ipRaw fqdnRaw c h = Inr (r, h1) \<and> hostnames_ok h1"
proof (cases "parseIP ipRaw = None")
  case True
  with ok show ?thesis by (simp add: AddHost_def)
next
  case valid: False
  define hn where "hn = toLower fqdnRaw"
  define ip where "ip = parseIP ipRaw"
  from LookupByHostname_loop_cases [of hn 0 "HostsFileLines h"] show ?thesis
  proof
    assume a: "LookupByHostname_loop hn 0 (HostsFileLines h) = Inl (ErrorString ''Hostname not found'') \<and>
      (\<forall>m \<in> set (HostsFileLines h). hn \<notin> set (Hostnames m))"
    then have free: "hn \<notin> set (all_hostnames h)" by (simp add: all_hostnames_def)
    from AddHost_attach_ok [OF ok free, of F ip c] obtain r h1
      where "AddHost_attach F ip hn c h = (Inr r, h1)" "hostnames_ok h1" by blast
    with a valid show ?thesis
      by (simp add: AddHost_def LookupByHostname_def hn_def ip_def)
  next
    assume "\<exists>pre l post. HostsFileLines h = pre @ l # post \<and> (\<forall>m \<in> set pre. hn \<notin> set (Hostnames m)) \<and>
      hn \<in> set (Hostnames l) \<and>
      LookupByHostname_loop hn 0 (HostsFileLines h) = Inr (0 + length pre, Address l)"
    then obtain pre l post where ls: "HostsFileLines h = pre @ l # post"
      and inl: "hn \<in> set (Hostnames l)"
      and lk: "LookupByHostname hn h = Inr (length pre, Address l)"
      by (auto simp: LookupByHostname_def)
    show ?thesis
    proof (cases "IP_Equal (Address l) ip")
      case True
      with valid lk ok update_Comment_ok [OF ls ok, of c] show ?thesis
        by (simp add: AddHost_def hn_def ip_def Let_def)
    next
      case False
      from ok have "distinct (all_hostnames h)" by (simp add: hostnames_ok_def)
      then have "count_list (all_hostnames h) hn \<le> 1" by (rule distinct_count_list_le)
      from AddHost_detach_result [OF ls inl this] ok obtain h1 where
        d: "AddHost_detach hn (length pre) h = Inr h1" and free: "hn \<notin> set (all_hostnames h1)"
        and ok1: "hostnames_ok h1" by blast
      from AddHost_attach_ok [OF ok1 free, of F ip c] obtain r h2
        where "AddHost_attach F ip hn c h1 = (Inr r, h2)" "hostnames_ok h2" by blast
      with valid lk False d show ?thesis
        by (simp add: AddHost_def hn_def ip_def)
    qed
  qed
qed

lemma AddHost_seq_ok:
  "hostnames_ok h \<Longrightarrow> \<exists>h1. AddHost_seq parseIP toLower F calls h = Inr h1 \<and> hostnames_ok h1"
proof (induction calls arbitrary: h)
  case Nil
  then show ?case by simp
next
  case (Cons call calls)
  obtain ipRaw fqdnRaw c where call: "call = (ipRaw, fqdnRaw, c)" by (cases call)
  from AddHost_ok [OF Cons.prems, of parseIP toLower F ipRaw fqdnRaw c] obtain r h1
    where s: "AddHost parseIP toLower F ipRaw fqdnRaw c h = Inr (r, h1)" and ok1: "hostnames_ok h1"
    by blast
  from Cons.IH [OF ok1] s call show ?case by simp
qed

lemma distinct_records_with:
  "distinct (concat (map Hostnames ls)) \<Longrightarrow> length (filter (\<lambda>l. hn \<in> set (Hostnames l)) ls) \<le> 1"
proof (induction ls)
  case Nil
  then show ?case by simp
next
  case (Cons a ls)
  show ?case
  proof (cases "hn \<in> set (Hostnames a)")
    case True
    with Cons.prems have "\<forall>m \<in> set ls. hn \<notin> set (Hostnames m)" by auto
    then have "filter (\<lambda>l. hn \<in> set (Hostnames l)) ls = []" by (simp add: filter_empty_conv)
    with True show ?thesis by simp
  next
    case False
    with Cons show ?thesis by simp
  qed
qed

lemma hostnames_ok_unique:
  assumes "hostnames_ok h"
  shows "length (records_with hn h) \<le> 1 \<and> orphans h = []"
proof
  from assms have "distinct (concat (map Hostnames (HostsFileLines h)))"
    by (simp add: hostnames_ok_def all_hostnames_def)
  then show "length (records_with hn h) \<le> 1"
    unfolding records_with_def by (rule distinct_records_with)
next
  from assms have "\<forall>l \<in> set (HostsFileLines h). Hostnames l \<noteq> []"
    by (force simp: hostnames_ok_def)
  then show "orphans h = []"
    by (simp add: orphans_def filter_empty_conv)
qed

text \<open>
  Claim C2. A run of \<^verbatim>\<open>AddHost\<close> calls on the empty document, whatever the
  arguments of the calls, ends without a panic in a document in which at most one
  line holds any given hostname and no Address line has an empty hostname list.
\<close>

theorem AddHost_keeps_hostnames_unique:
  "\<exists>h1. AddHost_seq parseIP toLower F calls (h\<lparr>HostsFileLines := []\<rparr>) = Inr h1 \<and>
         length (records_with hostname h1) \<le> 1 \<and> orphans h1 = []"
proof -
  have "hostnames_ok (h\<lparr>HostsFileLines := []\<rparr>)"
    by (simp add: hostnames_ok_def all_hostnames_def)
  from AddHost_seq_ok [OF this, of parseIP toLower F calls] obtain h1
    where "AddHost_seq parseIP toLower F calls (h\<lparr>HostsFileLines := []\<rparr>) = Inr h1" "hostnames_ok h1"
    by blast
  with hostnames_ok_unique [of h1 hostname] show ?thesis by blast
qed

theorem AddHost_keeps_hostnames_unique_witness:
  "AddHost_seq parseIPv4 toLowerASCII rawFormatter
       [(''192.168.1.1'', ''foo.local'', ''''), (''10.0.0.1'', ''Bar.local'', ''''),
        (''10.0.0.1'', ''baz.local'', ''''), (''10.0.0.1'', ''qux.local'', ''''),
        (''not.an.address'', ''foo.local'', ''''), (''192.168.1.1'', ''bar.local'', ''gateway'')]
       (doc_of []) =
     Inr (doc_of [(line_of ''192.168.1.1'' [''foo.local'', ''bar.local''])\<lparr>Comment := ''gateway''\<rparr>,
                  line_of ''10.0.0.1'' [''baz.local'', ''qux.local'']]) \<and>
   length (records_with ''bar.local''
       (doc_of [(line_of ''192.168.1.1'' [''foo.local'', ''bar.local''])\<lparr>Comment := ''gateway''\<rparr>,
                line_of ''10.0.0.1'' [''baz.local'', ''qux.local'']])) \<le> 1 \<and>
   orphans (doc_of [(line_of ''192.168.1.1'' [''foo.local'', ''bar.local''])\<lparr>Comment := ''gateway''\<rparr>,
                    line_of ''10.0.0.1'' [''baz.local'', ''qux.local'']]) = []"
proof -
  let ?calls = "[(''192.168.1.1'', ''foo.local'', ''''), (''10.0.0.1'', ''Bar.local'', ''''),
        (''10.0.0.1'', ''baz.local'', ''''), (''10.0.0.1'', ''qux.local'', ''''),
        (''not.an.address'', ''foo.local'', ''''), (''192.168.1.1'', ''bar.local'', ''gateway'')]"
  have run: "AddHost_seq parseIPv4 toLowerASCII rawFormatter ?calls (doc_of []) =
     Inr (doc_of [(line_of ''192.168.1.1'' [''foo.local'', ''bar.local''])\<lparr>Comment := ''gateway''\<rparr>,
                  line_of ''10.0.0.1'' [''baz.local'', ''qux.local'']])"
    by code_simp
  have e: "(doc_of [])\<lparr>HostsFileLines := []\<rparr> = doc_of []" by (simp add: doc_of_def)
  from AddHost_keeps_hostnames_unique [of parseIPv4 toLowerASCII rawFormatter ?calls "doc_of []"
      "''bar.local''"]
  obtain h1 where "AddHost_seq parseIPv4 toLowerASCII rawFormatter ?calls (doc_of []) = Inr h1"
    and "length (records_with ''bar.local'' h1) \<le> 1" and "orphans h1 = []"
    unfolding e by blast
  with run show ?thesis by simp
qed

subsection \<open>Adding the same host twice\<close>

lemma AddHost_attach_again:
  assumes free: "hn \<notin> set (all_hostnames h)"
    and valid: "parseIP ipRaw \<noteq> None" and hn: "toLower fqdnRaw = hn"
  shows "\<exists>r h1. AddHost_attach F (parseIP ipRaw) hn [] h = (Inr r, h1) \<and>
           AddHost parseIP toLower F ipRaw fqdnRaw [] h1 = Inr (Inr r, h1)"
proof -
  from AddHost_attach_result [OF free, of F "parseIP ipRaw" "[]"]
  obtain pre l post where r: "AddHost_attach F (parseIP ipRaw) hn [] h =
            (Inr (length pre, l), h\<lparr>HostsFileLines := pre @ l # post\<rparr>)"
     and eq: "IP_Equal (Address l) (parseIP ipRaw)"
     and alt: "(\<exists>l0. HostsFileLines h = pre @ l0 # post \<and> Hostnames l = Hostnames l0 @ [hn]) \<or>
           (HostsFileLines h = pre \<and> post = [] \<and> Hostnames l = [hn])"
    by blast
  from alt free have pre: "\<forall>m \<in> set pre. hn \<notin> set (Hostnames m)" and inl: "hn \<in> set (Hostnames l)"
    by (auto simp: all_hostnames_def)
  have "LookupByHostname hn (h\<lparr>HostsFileLines := pre @ l # post\<rparr>) = Inr (length pre, Address l)"
    using LookupByHostname_loop_at [OF pre inl, of 0 post] by (simp add: LookupByHostname_def)
  with eq valid hn have "AddHost parseIP toLower F ipRaw fqdnRaw [] (h\<lparr>HostsFileLines := pre @ l # post\<rparr>) =
      Inr (Inr (length pre, l), h\<lparr>HostsFileLines := pre @ l # post\<rparr>)"
    by (simp add: AddHost_def)
  with r show ?thesis by blast
qed

text \<open>
  Claim C7, as amended. Let the address parse and let the hostname, in lower
  case, stand at most once in the document. Then \<^verbatim>\<open>AddHost(ip, h, "")\<close> succeeds
  and returns a line and a document on which the same call succeeds again,
  returns the same index and line, and leaves the document as it is.
\<close>

theorem AddHost_twice_same:
  assumes valid: "parseIP ipRaw \<noteq> None"
    and once: "occurrences (toLower fqdnRaw) h \<le> 1"
  shows "\<exists>r h1. AddHost parseIP toLower F ipRaw fqdnRaw [] h = Inr (Inr r, h1) \<and>
           AddHost parseIP toLower F ipRaw fqdnRaw [] h1 = Inr (Inr r, h1)"
proof -
  define hn where "hn = toLower fqdnRaw"
  have hn: "toLower fqdnRaw = hn" by (simp add: hn_def)
  from once have once': "count_list (all_hostnames h) hn \<le> 1"
    by (simp add: occurrences_def hn_def)
  from LookupByHostname_loop_cases [of hn 0 "HostsFileLines h"] show ?thesis
  proof
    assume a: "LookupByHostname_loop hn 0 (HostsFileLines h) = Inl (ErrorString ''Hostname not found'') \<and>
      (\<forall>m \<in> set (HostsFileLines h). hn \<notin> set (Hostnames m))"
    then have free: "hn \<notin> set (all_hostnames h)" by (simp add: all_hostnames_def)
    from AddHost_attach_again [where parseIP = parseIP and ipRaw = ipRaw and toLower = toLower
        and fqdnRaw = fqdnRaw and F = F, OF free valid hn] obtain r h1 where
      "AddHost_attach F (parseIP ipRaw) hn [] h = (Inr r, h1)"
      "AddHost parseIP toLower F ipRaw fqdnRaw [] h1 = Inr (Inr r, h1)" by blast
    moreover from this(1) a valid hn
    have "AddHost parseIP toLower F ipRaw fqdnRaw [] h = Inr (Inr r, h1)"
      by (simp add: AddHost_def LookupByHostname_def)
    ultimately show ?thesis by blast
  next
    assume "\<exists>pre l post. HostsFileLines h = pre @ l # post \<and> (\<forall>m \<in> set pre. hn \<notin> set (Hostnames m)) \<and>
      hn \<in> set (Hostnames l) \<and>
      LookupByHostname_loop hn 0 (HostsFileLines h) = Inr (0 + length pre, Address l)"
    then obtain pre l post where ls: "HostsFileLines h = pre @ l # post"
      and inl: "hn \<in> set (Hostnames l)"
      and lk: "LookupByHostname hn h = Inr (length pre, Address l)"
      by (auto simp: LookupByHostname_def)
    show ?thesis
    proof (cases "IP_Equal (Address l) (parseIP ipRaw)")
      case True
      with valid lk hn ls
      have "AddHost parseIP toLower F ipRaw fqdnRaw [] h = Inr (Inr (length pre, l), h)"
        by (simp add: AddHost_def)
      then show ?thesis by blast
    next
      case False
      from AddHost_detach_result [OF ls inl once'] obtain h0 where
        d: "AddHost_detach hn (length pre) h = Inr h0" and free: "hn \<notin> set (all_hostnames h0)"
        by blast
      from AddHost_attach_again [where parseIP = parseIP and ipRaw = ipRaw and toLower = toLower
        and fqdnRaw = fqdnRaw and F = F, OF free valid hn] obtain r h1 where
        "AddHost_attach F (parseIP ipRaw) hn [] h0 = (Inr r, h1)"
        "AddHost parseIP toLower F ipRaw fqdnRaw [] h1 = Inr (Inr r, h1)" by blast
      moreover from this(1) valid hn lk False d
      have "AddHost parseIP toLower F ipRaw fqdnRaw [] h = Inr (Inr r, h1)"
        by (simp add: AddHost_def)
      ultimately show ?thesis by blast
    qed
  qed
qed

theorem AddHost_twice_same_witness:
  "parseIPv4 ''192.168.1.1'' \<noteq> None \<and>
   occurrences (toLowerASCII ''Bar.local'')
       (doc_of [line_of ''192.168.1.1'' [''foo.local''], line_of ''10.0.0.1'' [''bar.local'']]) \<le> 1 \<and>
   AddHost parseIPv4 toLowerASCII rawFormatter ''192.168.1.1'' ''Bar.local'' ''''
       (doc_of [line_of ''192.168.1.1'' [''foo.local''], line_of ''10.0.0.1'' [''bar.local'']]) =
     Inr (Inr (0, line_of ''192.168.1.1'' [''foo.local'', ''bar.local'']),
          doc_of [line_of ''192.168.1.1'' [''foo.local'', ''bar.local'']]) \<and>
   AddHost parseIPv4 toLowerASCII rawFormatter ''192.168.1.1'' ''Bar.local'' ''''
       (doc_of [line_of ''192.168.1.1'' [''foo.local'', ''bar.local'']]) =
     Inr (Inr (0, line_of ''192.168.1.1'' [''foo.local'', ''bar.local'']),
          doc_of [line_of ''192.168.1.1'' [''foo.local'', ''bar.local'']])"
proof -
  let ?d = "doc_of [line_of ''192.168.1.1'' [''foo.local''], line_of ''10.0.0.1'' [''bar.local'']]"
  have v: "parseIPv4 ''192.168.1.1'' \<noteq> None" by code_simp
  have o: "occurrences (toLowerASCII ''Bar.local'') ?d \<le> 1" by code_simp
  have first: "AddHost parseIPv4 toLowerASCII rawFormatter ''192.168.1.1'' ''Bar.local'' '''' ?d =
     Inr (Inr (0, line_of ''192.168.1.1'' [''foo.local'', ''bar.local'']),
          doc_of [line_of ''192.168.1.1'' [''foo.local'', ''bar.local'']])"
    by code_simp
  from AddHost_twice_same [where parseIP = parseIPv4 and ipRaw = "''192.168.1.1''"
      and toLower = toLowerASCII and fqdnRaw = "''Bar.local''" and F = rawFormatter and h = ?d,
      OF v o]
  obtain r h1 where
    "AddHost parseIPv4 toLowerASCII rawFormatter ''192.168.1.1'' ''Bar.local'' '''' ?d = Inr (Inr r, h1)"
    "AddHost parseIPv4 toLowerASCII rawFormatter ''192.168.1.1'' ''Bar.local'' '''' h1 = Inr (Inr r, h1)"
    by blast
  with first have "AddHost parseIPv4 toLowerASCII rawFormatter ''192.168.1.1'' ''Bar.local'' ''''
       (doc_of [line_of ''192.168.1.1'' [''foo.local'', ''bar.local'']]) =
     Inr (Inr (0, line_of ''192.168.1.1'' [''foo.local'', ''bar.local'']),
          doc_of [line_of ''192.168.1.1'' [''foo.local'', ''bar.local'']])"
    by simp
  with v o first show ?thesis by blast
qed

text \<open>
  The claim as it was stated, for every document, fails when the hostname
  stands in two lines, as after calls of \<^verbatim>\<open>AddHostRaw\<close>, which appends without
  looking for duplicates. On the lines \<^verbatim>\<open>10.0.0.1 h.local\<close>, \<^verbatim>\<open>10.0.0.2 h.local\<close>
  and \<^verbatim>\<open>10.0.0.3 x.local\<close>, a first \<^verbatim>\<open>AddHost("10.0.0.3", "h.local", "")\<close> removes
  the first line and adds the hostname to the line of \<^verbatim>\<open>10.0.0.3\<close>, returned with
  index 1; the second call finds the hostname in the line of \<^verbatim>\<open>10.0.0.2\<close>, removes
  that line and adds the hostname once more, returning index 0. The document
  has two lines after the first call and one after the second.
\<close>

theorem AddHost_twice_same_counterexample:
  "snd (AddHostRaw parseIPv4 toLowerASCII ''10.0.0.3'' ''x.local'' ''''
       (snd (AddHostRaw parseIPv4 toLowerASCII ''10.0.0.2'' ''h.local'' ''''
          (snd (AddHostRaw parseIPv4 toLowerASCII ''10.0.0.1'' ''h.local'' '''' (doc_of [])))))) =
     doc_of [line_of ''10.0.0.1'' [''h.local''], line_of ''10.0.0.2'' [''h.local''],
             line_of ''10.0.0.3'' [''x.local'']] \<and>
   AddHost parseIPv4 toLowerASCII rawFormatter ''10.0.0.3'' ''h.local'' ''''
       (doc_of [line_of ''10.0.0.1'' [''h.local''], line_of ''10.0.0.2'' [''h.local''],
                line_of ''10.0.0.3'' [''x.local'']]) =
     Inr (Inr (1, line_of ''10.0.0.3'' [''x.local'', ''h.local'']),
          doc_of [line_of ''10.0.0.2'' [''h.local''],
                  line_of ''10.0.0.3'' [''x.local'', ''h.local'']]) \<and>
   AddHost parseIPv4 toLowerASCII rawFormatter ''10.0.0.3'' ''h.local'' ''''
       (doc_of [line_of ''10.0.0.2'' [''h.local''],
                line_of ''10.0.0.3'' [''x.local'', ''h.local'']]) =
     Inr (Inr (0, line_of ''10.0.0.3'' [''x.local'', ''h.local'', ''h.local'']),
          doc_of [line_of ''10.0.0.3'' [''x.local'', ''h.local'', ''h.local'']])"
  by code_simp

end
